theory Spec2Isabelle
  imports Main "HOL-Library.Word"
begin

chapter \<open>The session core of the tunnel\<close>

text \<open>
  The parts of the tunnel that its specification makes promises about, each translated
  from its Go source: the adapter that reads a WebSocket as a byte stream
  (\<open>share/cnet\<close>), the bidirectional pipe (\<open>share/cio\<close>), the tunnel's active connection
  and the proxy's connection pool (\<open>share/tunnel\<close>), and the client's connection loop
  (\<open>client\<close>). Threads are modelled by the steps they take and a schedule that orders
  them; what the program gets from outside (frames, readers and writers, clocks, the
  results of library calls) is a parameter.
\<close>

section \<open>Bytes and errors\<close>

type_synonym byte = "8 word"

text \<open>Go error values that the modelled functions return or pass on. \<open>Err\<close> stands for
  any other error, identified by its message.\<close>

datatype error = EOF | ErrShortWrite | Err string

section \<open>share/cnet: a WebSocket connection presented as a byte stream\<close>











section \<open>share/cio: the bidirectional pipe\<close>

text \<open>One pass of the loop of \<open>chunkedCopy\<close> as its reader and writer answer it: \<open>src.Read\<close>
  returns \<open>(nr, er)\<close> and, when \<open>nr > 0\<close>, \<open>dst.Write\<close> returns \<open>(nw, ew)\<close>. The random chunk
  size and the random delay change what is asked of the reader and when, not what the
  loop does with the answers.\<close>

record io_step =
  nr :: int
  er :: "error option"
  nw :: int
  ew :: "error option"

text \<open>\<open>func chunkedCopy(dst io.Writer, src io.Reader, rng *rand.Rand) (int64, error)\<close>, run
  against the answers of its reader and writer. \<open>None\<close>: the answers run out before the
  loop returns, that is, the copy is still blocked in a read or a write.\<close>

fun chunkedCopy_loop :: "64 word \<Rightarrow> io_step list \<Rightarrow> (64 word \<times> error option) option" where
  "chunkedCopy_loop tot [] = None"
| "chunkedCopy_loop tot (s # rest) =
     (if nr s > 0 then
        (let short = (nw s < 0 \<or> nr s < nw s);
             nw1 = (if short then 0 else nw s);
             ew1 = (if short \<and> ew s = None then Some ErrShortWrite else ew s);
             tot1 = tot + word_of_int nw1
         in if ew1 \<noteq> None then Some (tot1, ew1)
            else if nr s \<noteq> nw1 then Some (tot1, Some ErrShortWrite)
            else (case er s of
                    Some e \<Rightarrow> if e \<noteq> EOF then Some (tot1, Some e) else Some (tot1, None)
                  | None \<Rightarrow> chunkedCopy_loop tot1 rest))
      else (case er s of
              Some e \<Rightarrow> if e \<noteq> EOF then Some (tot, Some e) else Some (tot, None)
            | None \<Rightarrow> chunkedCopy_loop tot rest))"

definition chunkedCopy :: "io_step list \<Rightarrow> (64 word \<times> error option) option" where
  "chunkedCopy answers = chunkedCopy_loop 0 answers"

text \<open>\<open>func Pipe(src, dst io.ReadWriteCloser) (int64, int64)\<close> starts two goroutines and
  waits for both. Each goroutine runs three statements; \<open>pc\<close> says which one is next.\<close>

datatype pc = AtCopy | AtOnce | AtDone | Exited

record Pipe_state =
  sent :: "64 word"
  received :: "64 word"
  o_done :: bool
  src_Close :: nat
  dst_Close :: nat
  wg :: nat
  g1 :: pc
  g2 :: pc
  ret :: "(64 word \<times> 64 word) option"

text \<open>The state after \<open>wg.Add(2)\<close> and the two \<open>go\<close> statements. \<open>src_Close\<close> and
  \<open>dst_Close\<close> count the calls of \<open>src.Close()\<close> and \<open>dst.Close()\<close>; \<open>ret\<close> is what
  \<open>Pipe\<close> has returned, if it has.\<close>

definition Pipe_init :: Pipe_state where
  "Pipe_init = \<lparr>sent = 0, received = 0, o_done = False, src_Close = 0, dst_Close = 0,
                wg = 2, g1 = AtCopy, g2 = AtCopy, ret = None\<rparr>"

text \<open>\<open>o.Do(close)\<close> with \<open>close := func() { src.Close(); dst.Close() }\<close>.\<close>

definition o_Do_close :: "Pipe_state \<Rightarrow> Pipe_state" where
  "o_Do_close s =
     (if o_done s then s
      else s\<lparr>o_done := True, src_Close := src_Close s + 1, dst_Close := dst_Close s + 1\<rparr>)"

text \<open>One step of one thread. \<open>G1\<close> is the first goroutine
  (\<open>received, _ = chunkedCopy(src, dst, rng1)\<close>, which reads \<open>dst\<close> and writes \<open>src\<close>),
  \<open>G2\<close> the second (\<open>sent, _ = chunkedCopy(dst, src, rng2)\<close>), \<open>Main\<close> is
  \<open>wg.Wait(); return sent, received\<close>. \<open>dst2src\<close> and \<open>src2dst\<close> are the answers the two
  copies get. \<open>None\<close>: the thread cannot move.\<close>

datatype thread = G1 | G2 | Main

definition Pipe_step :: "io_step list \<Rightarrow> io_step list \<Rightarrow> thread \<Rightarrow> Pipe_state \<Rightarrow> Pipe_state option" where
  "Pipe_step dst2src src2dst t s =
     (case t of
        G1 \<Rightarrow>
          (case g1 s of
             AtCopy \<Rightarrow>
               (case chunkedCopy dst2src of
                  None \<Rightarrow> None
                | Some (n, _) \<Rightarrow> Some (s\<lparr>received := n, g1 := AtOnce\<rparr>))
           | AtOnce \<Rightarrow> Some ((o_Do_close s)\<lparr>g1 := AtDone\<rparr>)
           | AtDone \<Rightarrow> Some (s\<lparr>wg := wg s - 1, g1 := Exited\<rparr>)
           | Exited \<Rightarrow> None)
      | G2 \<Rightarrow>
          (case g2 s of
             AtCopy \<Rightarrow>
               (case chunkedCopy src2dst of
                  None \<Rightarrow> None
                | Some (n, _) \<Rightarrow> Some (s\<lparr>sent := n, g2 := AtOnce\<rparr>))
           | AtOnce \<Rightarrow> Some ((o_Do_close s)\<lparr>g2 := AtDone\<rparr>)
           | AtDone \<Rightarrow> Some (s\<lparr>wg := wg s - 1, g2 := Exited\<rparr>)
           | Exited \<Rightarrow> None)
      | Main \<Rightarrow>
          (if wg s = 0 \<and> ret s = None then Some (s\<lparr>ret := Some (sent s, received s)\<rparr>)
           else None))"

text \<open>A schedule is the order in which the threads take their steps.\<close>

fun Pipe_run :: "io_step list \<Rightarrow> io_step list \<Rightarrow> thread list \<Rightarrow> Pipe_state \<Rightarrow> Pipe_state option" where
  "Pipe_run dst2src src2dst [] s = Some s"
| "Pipe_run dst2src src2dst (t # ts) s =
     (case Pipe_step dst2src src2dst t s of
        None \<Rightarrow> None
      | Some s' \<Rightarrow> Pipe_run dst2src src2dst ts s')"

definition Pipe :: "io_step list \<Rightarrow> io_step list \<Rightarrow> thread list \<Rightarrow> Pipe_state option" where
  "Pipe src2dst dst2src schedule = Pipe_run dst2src src2dst schedule Pipe_init"

section \<open>share/tunnel: the tunnel and its active connection\<close>

text \<open>The type \<open>waitGroup\<close> of \<open>activatingConn\<close>, the tunnel's "activating" latch, is
  not among the sources; the tunnel uses its methods \<open>Add\<close>, \<open>Done\<close>, \<open>DoneAll\<close> and
  \<open>Wait\<close>. The latch is modelled by its counter.\<close>

type_synonym waitGroup = nat

text \<open>Modelled from the spec: \<open>waitGroup.Add\<close> is missing. \<open>BindSSH\<close> "re-arms the
  activating latch" with \<open>Add(1)\<close>, as \<open>New\<close> arms it: the counter goes up.\<close>

definition waitGroup_Add :: "nat \<Rightarrow> waitGroup \<Rightarrow> waitGroup" where
  "waitGroup_Add n w = w + n"

text \<open>Modelled from the spec: \<open>waitGroup.Done\<close> is missing. \<open>BindSSH\<close> "stores the session,
  unblocks any waiting getSSH" with \<open>Done()\<close>: the counter goes down by one, and stays
  at zero where it is zero (every session after the first is bound with the latch
  open or armed once).\<close>

definition waitGroup_Done :: "waitGroup \<Rightarrow> waitGroup" where
  "waitGroup_Done w = (if w > 0 then w - 1 else w)"

text \<open>Modelled from the spec: \<open>waitGroup.DoneAll\<close> is missing. Cancellation "wakes getSSH
  waiters (they return nil)": the goroutine of \<open>BindSSH\<close> calls \<open>DoneAll()\<close> when the
  context is done, and the counter goes to zero.\<close>

definition waitGroup_DoneAll :: "waitGroup \<Rightarrow> waitGroup" where
  "waitGroup_DoneAll w = 0"

text \<open>Modelled from the spec: \<open>waitGroup.Wait\<close> is missing. \<open>getSSH\<close> "blocks on the
  activating latch": \<open>Wait\<close> blocks while the counter is positive.\<close>

definition waitGroup_Wait_blocks :: "waitGroup \<Rightarrow> bool" where
  "waitGroup_Wait_blocks w = (w > 0)"

text \<open>An \<open>ssh.Conn\<close> is identified by a number. Of \<open>type Tunnel struct\<close> the two fields
  that \<open>BindSSH\<close> and \<open>getSSH\<close> share are kept; \<open>activeConnMut\<close> makes each access to
  \<open>activeConn\<close> one step.\<close>

type_synonym ssh_Conn = nat

record Tunnel =
  activatingConn :: waitGroup
  activeConn :: "ssh_Conn option"

text \<open>\<open>func New(c Config) *Tunnel\<close>: \<open>t.activatingConn.Add(1)\<close> on a fresh tunnel.\<close>

definition New :: Tunnel where
  "New = \<lparr>activatingConn = waitGroup_Add 1 0, activeConn = None\<rparr>"

text \<open>\<open>BindSSH\<close> blocks in \<open>c.Wait()\<close>, so it is modelled by what it does before and after
  that call, and by its goroutine. \<open>BindSSH_bind\<close> is \<open>//mark active and unblock\<close>, with
  the panic \<open>double bind ssh\<close> as \<open>None\<close>.\<close>

definition BindSSH_bind :: "ssh_Conn \<Rightarrow> Tunnel \<Rightarrow> Tunnel option" where
  "BindSSH_bind c t =
     (if activeConn t \<noteq> None then None
      else Some (t\<lparr>activeConn := Some c, activatingConn := waitGroup_Done (activatingConn t)\<rparr>))"

text \<open>\<open>//mark inactive and block\<close>: the statements between \<open>c.Wait()\<close> and \<open>return err\<close>.\<close>

definition BindSSH_unbind :: "Tunnel \<Rightarrow> Tunnel" where
  "BindSSH_unbind t =
     (let t1 = t\<lparr>activatingConn := waitGroup_Add 1 (activatingConn t)\<rparr>
      in t1\<lparr>activeConn := None\<rparr>)"

text \<open>\<open>//link ctx to ssh-conn\<close>: what the goroutine does to the tunnel once the context
  given to \<open>BindSSH\<close> is done (it also closes the connection).\<close>

definition BindSSH_ctx_done :: "Tunnel \<Rightarrow> Tunnel" where
  "BindSSH_ctx_done t = t\<lparr>activatingConn := waitGroup_DoneAll (activatingConn t)\<rparr>"

text \<open>\<open>func (t *Tunnel) getSSH(ctx context.Context) ssh.Conn\<close>, as far as the tunnel's
  state at the call decides it. \<open>isDone\<close> is the value of \<open>isDone(ctx)\<close>. \<open>Blocks\<close>: the call
  waits in its \<open>select\<close> for the context, the timer or the latch. With the latch open the
  third case of the \<open>select\<close> is ready and \<open>activeConn\<close> is read again.\<close>

datatype getSSH_result = Returns "ssh_Conn option" | Blocks

definition getSSH :: "bool \<Rightarrow> Tunnel \<Rightarrow> getSSH_result" where
  "getSSH isDone t =
     (if isDone then Returns None
      else (case activeConn t of
              Some c \<Rightarrow> Returns (Some c)
            | None \<Rightarrow>
                if waitGroup_Wait_blocks (activatingConn t) then Blocks
                else Returns (activeConn t)))"

section \<open>share/tunnel: the proxy and its connection pool\<close>

text \<open>Of \<open>type Proxy struct\<close>: \<open>connPool\<close> is the number of values buffered in the channel
  (\<open>make(chan struct{}, 100)\<close>), \<open>maxConns\<close> the field of that name. Two counters are added
  for the claims: \<open>inflight\<close> counts the \<open>pipeRemote\<close> goroutines that were started and
  have not returned, \<open>rejected\<close> the accepted connections that \<open>runTCP\<close> closed at once.\<close>

record Proxy =
  connPool :: nat
  maxConns :: nat
  inflight :: nat
  rejected :: nat

definition connPool_cap :: nat where
  "connPool_cap = 100"

definition NewProxy :: Proxy where
  "NewProxy = \<lparr>connPool = 0, maxConns = 100, inflight = 0, rejected = 0\<rparr>"

text \<open>The steps of the threads of \<open>runTCP\<close>:
  \<^item> \<open>Accept\<close>: \<open>p.tcp.Accept()\<close> returned a connection and the \<open>select\<close> after it ran: a
    send on \<open>connPool\<close> and \<open>go p.pipeRemote(ctx, src)\<close> if the channel has room,
    \<open>src.Close()\<close> otherwise;
  \<^item> \<open>Worker\<close>: one of the ten \<open>connectionWorker\<close> goroutines takes the case
    \<open><-p.connPool\<close> of its \<open>select\<close>;
  \<^item> \<open>PipeReturn\<close>: one \<open>pipeRemote\<close> returns, and its deferred function receives from
    \<open>connPool\<close> if a value is there.\<close>

datatype Proxy_event = Accept | Worker | PipeReturn

definition Proxy_step :: "Proxy_event \<Rightarrow> Proxy \<Rightarrow> Proxy option" where
  "Proxy_step e p =
     (case e of
        Accept \<Rightarrow>
          (if connPool p < connPool_cap
           then Some (p\<lparr>connPool := connPool p + 1, inflight := inflight p + 1\<rparr>)
           else Some (p\<lparr>rejected := rejected p + 1\<rparr>))
      | Worker \<Rightarrow>
          (if connPool p > 0 then Some (p\<lparr>connPool := connPool p - 1\<rparr>) else None)
      | PipeReturn \<Rightarrow>
          (if inflight p > 0
           then Some (p\<lparr>inflight := inflight p - 1,
                        connPool := (if connPool p > 0 then connPool p - 1 else connPool p)\<rparr>)
           else None))"

fun Proxy_run :: "Proxy_event list \<Rightarrow> Proxy \<Rightarrow> Proxy option" where
  "Proxy_run [] p = Some p"
| "Proxy_run (e # es) p =
     (case Proxy_step e p of None \<Rightarrow> None | Some p' \<Rightarrow> Proxy_run es p')"

section \<open>share/version.go\<close>

definition ProtocolVersion :: string where
  "ProtocolVersion = ''chisel-v3''"

definition MaskedWebSocketProtocol :: string where
  "MaskedWebSocketProtocol = ''chat''"

section \<open>client: one connection attempt\<close>

text \<open>\<open>time.Duration\<close> is an \<open>int64\<close> of nanoseconds.\<close>

type_synonym Duration = "64 word"

definition Second :: Duration where
  "Second = 1000000000"

definition Minute :: Duration where
  "Minute = 60 * Second"

text \<open>The fields of \<open>websocket.Dialer\<close> that \<open>connectionOnce\<close> fills with plain values.
  \<open>TLSClientConfig\<close> and \<open>NetDialContext\<close> are passed on from the client as they are.\<close>

record Dialer =
  HandshakeTimeout :: Duration
  Subprotocols :: "string list"
  ReadBufferSize :: int
  WriteBufferSize :: int

text \<open>What one call of \<open>connectionOnce\<close> meets, in the order it asks:
  \<^item> \<open>ctxDone\<close>: the context is done at entry;
  \<^item> \<open>WS_TIMEOUT\<close>, \<open>WS_BUFF_SIZE\<close>: the values of \<open>settings.EnvDuration("WS_TIMEOUT", ...)\<close>
    and \<open>settings.EnvInt("WS_BUFF_SIZE", 0)\<close>;
  \<^item> \<open>setProxy\<close>: \<open>None\<close> when \<open>c.proxyURL\<close> is nil, else the outcome of
    \<open>c.setProxy(p, &d)\<close>: an error, or what the call does to the dialer (the method is
    not among the sources);
  \<^item> \<open>dialErr\<close>, \<open>sshErr\<close>: the errors of \<open>d.DialContext\<close> and \<open>ssh.NewClientConn\<close>;
  \<^item> \<open>sendErr\<close>, \<open>configerr\<close>: the error and the reply body of the \<open>config\<close> request;
  \<^item> \<open>bindErr\<close>: what \<open>c.tunnel.BindSSH\<close> returns;
  \<^item> \<open>sinceT0\<close>: \<open>time.Since(t0)\<close> when \<open>BindSSH\<close> has returned, \<open>t0\<close> being taken just
    before the \<open>config\<close> request is sent.\<close>

record attempt =
  ctxDone :: bool
  WS_TIMEOUT :: Duration
  WS_BUFF_SIZE :: int
  setProxy :: "(error + (Dialer \<Rightarrow> Dialer)) option"
  dialErr :: "error option"
  sshErr :: "error option"
  sendErr :: "error option"
  configerr :: "byte list"
  bindErr :: "error option"
  sinceT0 :: Duration

text \<open>What \<open>connectionOnce\<close> returns, and the dialer on which it called
  \<open>d.DialContext\<close> (if it came that far).\<close>

record outcome =
  connected :: bool
  err :: "error option"
  dialed :: "Dialer option"

definition failed :: "error \<Rightarrow> Dialer option \<Rightarrow> outcome" where
  "failed e d = \<lparr>connected = False, err = Some e, dialed = d\<rparr>"

text \<open>\<open>func (c *Client) connectionOnce(ctx context.Context) (connected bool, err error)\<close>.
  After the dial every early return is \<open>return false, err\<close>; the last statement is
  \<open>connected = time.Since(t0) > 5*time.Second\<close>.\<close>

definition after_dial :: "attempt \<Rightarrow> Dialer \<Rightarrow> outcome" where
  "after_dial a d =
     (case dialErr a of
        Some e \<Rightarrow> failed e (Some d)
      | None \<Rightarrow>
     (case sshErr a of
        Some e \<Rightarrow> failed e (Some d)
      | None \<Rightarrow>
     (case sendErr a of
        Some e \<Rightarrow> failed e (Some d)
      | None \<Rightarrow>
     (if length (configerr a) > 0 then failed (Err (map (\<lambda>b. char_of (unat b)) (configerr a))) (Some d)
      else \<lparr>connected = (sint (sinceT0 a) > sint (5 * Second)),
             err = bindErr a, dialed = Some d\<rparr>))))"

definition connectionOnce :: "attempt \<Rightarrow> outcome" where
  "connectionOnce a =
     (if ctxDone a then failed (Err ''Cancelled'') None
      else
        (let d = \<lparr>HandshakeTimeout = WS_TIMEOUT a,
                  Subprotocols = [MaskedWebSocketProtocol],
                  ReadBufferSize = WS_BUFF_SIZE a,
                  WriteBufferSize = WS_BUFF_SIZE a\<rparr>
         in (case setProxy a of
               None \<Rightarrow> after_dial a d
             | Some (Inl e) \<Rightarrow> failed e None
             | Some (Inr f) \<Rightarrow> after_dial a (f d))))"

section \<open>client: the connection loop\<close>

text \<open>The variables of \<open>connectionLoop\<close>. Of the \<open>backoff.Backoff\<close> value \<open>b\<close> the attempt
  counter is kept: \<open>b.Reset()\<close> sets it to zero, \<open>b.Attempt()\<close> reads it, \<open>b.Duration()\<close>
  adds one and returns the exponential base, which is a parameter here. \<open>lastSuccess\<close> is
  \<open>None\<close> for the zero \<open>time.Time\<close>, else nanoseconds on the clock of \<open>time.Now()\<close>.\<close>

record loop_vars =
  b_attempt :: nat
  lastSuccess :: "int option"
  consecutiveFailures :: "64 word"
  adaptiveBackoff :: Duration

definition loop_init :: loop_vars where
  "loop_init = \<lparr>b_attempt = 0, lastSuccess = None, consecutiveFailures = 0, adaptiveBackoff = 0\<rparr>"

text \<open>\<open>//reset backoff after successful connections\<close>: the \<open>if connected\<close> at the head of
  the loop body; \<open>now\<close> is \<open>time.Now()\<close> there.\<close>

definition after_connectionOnce :: "bool \<Rightarrow> int \<Rightarrow> loop_vars \<Rightarrow> loop_vars" where
  "after_connectionOnce conn now v =
     (if conn then v\<lparr>b_attempt := 0, lastSuccess := Some now,
                     consecutiveFailures := 0, adaptiveBackoff := 0\<rparr>
      else v\<lparr>consecutiveFailures := consecutiveFailures v + 1\<rparr>)"

text \<open>\<open>//give up?\<close> with \<open>attempt := int(b.Attempt())\<close> and
  \<open>maxAttempt := c.config.MaxRetryCount\<close>.\<close>

definition give_up :: "int \<Rightarrow> loop_vars \<Rightarrow> bool" where
  "give_up maxAttempt v = (maxAttempt \<ge> 0 \<and> int (b_attempt v) \<ge> maxAttempt)"

text \<open>Go's \<open>/\<close> on integers truncates towards zero.\<close>

definition go_div :: "int \<Rightarrow> int \<Rightarrow> int" where
  "go_div a b = sgn a * sgn b * (\<bar>a\<bar> div \<bar>b\<bar>)"

text \<open>\<open>time.Since(lastSuccess)\<close>: the difference of the two instants, kept within the
  range of a \<open>Duration\<close>.\<close>

definition Since :: "int \<Rightarrow> int \<Rightarrow> Duration" where
  "Since now t = word_of_int (max (- (2 ^ 63)) (min (2 ^ 63 - 1) (now - t)))"

text \<open>\<open>// Adaptive backoff calculation\<close> up to \<open>finalBackoff\<close>: \<open>baseDuration\<close> is the value of
  \<open>b.Duration()\<close>, \<open>now\<close> the clock at \<open>time.Since(lastSuccess)\<close>. Returns \<open>finalBackoff\<close>
  and the variables afterwards.\<close>

definition backoff_calculation :: "Duration \<Rightarrow> int \<Rightarrow> loop_vars \<Rightarrow> Duration \<times> loop_vars" where
  "backoff_calculation baseDuration now v =
     (let a1 = (if sint (consecutiveFailures v) > 3 then
                  (let a = baseDuration * word_of_int (go_div (sint (consecutiveFailures v)) 3)
                   in if sint a > sint (10 * Minute) then 10 * Minute else a)
                else adaptiveBackoff v);
          a2 = (case lastSuccess v of
                  None \<Rightarrow> a1
                | Some t \<Rightarrow> if sint (Since now t) > sint (5 * Minute) then 5 * Second else a1);
          f = baseDuration + a2;
          finalBackoff = (if sint f > sint (10 * Minute) then 10 * Minute else f)
      in (finalBackoff, v\<lparr>b_attempt := b_attempt v + 1, adaptiveBackoff := a2\<rparr>))"

text \<open>One pass of the loop body from the return of \<open>connectionOnce\<close> to the \<open>select\<close>:
  give up, or sleep for \<open>finalBackoff\<close>.\<close>

datatype loop_next = GiveUp | RetryIn Duration

definition connectionLoop_body ::
    "bool \<Rightarrow> int \<Rightarrow> int \<Rightarrow> Duration \<Rightarrow> int \<Rightarrow> loop_vars \<Rightarrow> loop_next \<times> loop_vars" where
  "connectionLoop_body conn now1 maxAttempt baseDuration now2 v =
     (let v1 = after_connectionOnce conn now1 v
      in if give_up maxAttempt v1 then (GiveUp, v1)
         else (case backoff_calculation baseDuration now2 v1 of
                 (finalBackoff, v2) \<Rightarrow> (RetryIn finalBackoff, v2)))"

section \<open>Vocabulary of the statements\<close>






text \<open>What a goroutine of \<open>Pipe\<close> still holds of the wait group.\<close>

fun running :: "pc \<Rightarrow> nat" where
  "running Exited = 0"
| "running AtCopy = 1"
| "running AtOnce = 1"
| "running AtDone = 1"

text \<open>The invariant of \<open>Pipe\<close> under every schedule.\<close>

definition Pipe_inv :: "io_step list \<Rightarrow> io_step list \<Rightarrow> Pipe_state \<Rightarrow> bool" where
  "Pipe_inv dst2src src2dst s =
     (src_Close s = of_bool (o_done s) \<and>
      dst_Close s = of_bool (o_done s) \<and>
      (g1 s = AtDone \<or> g1 s = Exited \<or> g2 s = AtDone \<or> g2 s = Exited \<longrightarrow> o_done s) \<and>
      wg s = running (g1 s) + running (g2 s) \<and>
      (g1 s \<noteq> AtCopy \<longrightarrow> (\<exists>e. chunkedCopy dst2src = Some (received s, e))) \<and>
      (g2 s \<noteq> AtCopy \<longrightarrow> (\<exists>e. chunkedCopy src2dst = Some (sent s, e))) \<and>
      (\<forall>r. ret s = Some r \<longrightarrow> g1 s = Exited \<and> g2 s = Exited \<and> r = (sent s, received s)))"

text \<open>Readers and writers for the examples: three or five bytes are copied, then the
  reader reports end of file or a transport error, or the writer writes short.\<close>

definition three_then_EOF :: "io_step list" where
  "three_then_EOF =
     [\<lparr>nr = 3, er = None, nw = 3, ew = None\<rparr>, \<lparr>nr = 0, er = Some EOF, nw = 0, ew = None\<rparr>]"

definition three_then_reset :: "io_step list" where
  "three_then_reset =
     [\<lparr>nr = 3, er = None, nw = 3, ew = None\<rparr>,
      \<lparr>nr = 0, er = Some (Err ''connection reset by peer''), nw = 0, ew = None\<rparr>]"

definition five_then_EOF :: "io_step list" where
  "five_then_EOF =
     [\<lparr>nr = 5, er = None, nw = 5, ew = None\<rparr>, \<lparr>nr = 0, er = Some EOF, nw = 0, ew = None\<rparr>]"

definition five_then_short :: "io_step list" where
  "five_then_short =
     [\<lparr>nr = 5, er = None, nw = 5, ew = None\<rparr>, \<lparr>nr = 4, er = None, nw = 0, ew = None\<rparr>]"


text \<open>The state of \<open>Pipe\<close> in which both copies have returned and neither goroutine has
  yet called \<open>o.Do(close)\<close>.\<close>

definition Pipe_copied :: "64 word \<Rightarrow> 64 word \<Rightarrow> Pipe_state" where
  "Pipe_copied n_sent n_received =
     \<lparr>sent = n_sent, received = n_received, o_done = False, src_Close = 0, dst_Close = 0,
      wg = 2, g1 = AtOnce, g2 = AtOnce, ret = None\<rparr>"

text \<open>The condition of \<open>// Network quality assessment\<close>: a success is on record and lies
  more than five minutes back.\<close>

definition probe_due :: "int \<Rightarrow> loop_vars \<Rightarrow> bool" where
  "probe_due now v =
     (case lastSuccess v of
        None \<Rightarrow> False
      | Some t \<Rightarrow> sint (Since now t) > sint (5 * Minute))"

text \<open>The loop after a success at instant 0 and twelve failed attempts since.\<close>

definition probing :: loop_vars where
  "probing = \<lparr>b_attempt = 12, lastSuccess = Some 0, consecutiveFailures = 12,
              adaptiveBackoff = 10 * Minute\<rparr>"

text \<open>Two attempts that reach \<open>BindSSH\<close> without a proxy; the session ends exactly five
  seconds after \<open>t0\<close> in the first and one nanosecond later in the second.\<close>

definition short_session :: attempt where
  "short_session =
     \<lparr>ctxDone = False, WS_TIMEOUT = 45 * Second, WS_BUFF_SIZE = 0, setProxy = None,
      dialErr = None, sshErr = None, sendErr = None, configerr = [], bindErr = Some EOF,
      sinceT0 = 5 * Second\<rparr>"

definition long_session :: attempt where
  "long_session = short_session\<lparr>sinceT0 := 5 * Second + 1\<rparr>"

definition stale_vars :: loop_vars where
  "stale_vars = \<lparr>b_attempt = 4, lastSuccess = None, consecutiveFailures = 4,
                 adaptiveBackoff = 7 * Second\<rparr>"

text \<open>\<open>c.setProxy\<close>, where it is called and succeeds, leaves the dialer's \<open>Subprotocols\<close>
  as they are.\<close>

definition keeps_Subprotocols :: "attempt \<Rightarrow> bool" where
  "keeps_Subprotocols a =
     (case setProxy a of
        Some (Inr f) \<Rightarrow> (\<forall>d. Subprotocols (f d) = Subprotocols d)
      | _ \<Rightarrow> True)"

section \<open>The WebSocket adapter's Read (C1)\<close>












section \<open>The bidirectional pipe (C4, C9)\<close>

lemma Pipe_inv_init: "Pipe_inv dst2src src2dst Pipe_init"
  by (simp add: Pipe_inv_def Pipe_init_def)

lemma Pipe_inv_G1:
  assumes "Pipe_inv dst2src src2dst s" and "Pipe_step dst2src src2dst G1 s = Some s'"
  shows "Pipe_inv dst2src src2dst s'"
proof (cases "g1 s")
  case AtCopy
  with assms(2) obtain n e where c: "chunkedCopy dst2src = Some (n, e)"
    and s': "s' = s\<lparr>received := n, g1 := AtOnce\<rparr>"
    by (auto simp: Pipe_step_def split: option.splits)
  from assms(1) AtCopy show ?thesis
    unfolding Pipe_inv_def s' by (simp add: c)
next
  case AtOnce
  with assms(2) have s': "s' = (o_Do_close s)\<lparr>g1 := AtDone\<rparr>"
    by (simp add: Pipe_step_def)
  from assms(1) AtOnce show ?thesis
    unfolding Pipe_inv_def s' o_Do_close_def by (cases "o_done s") simp_all
next
  case AtDone
  with assms(2) have s': "s' = s\<lparr>wg := wg s - 1, g1 := Exited\<rparr>"
    by (simp add: Pipe_step_def)
  from assms(1) AtDone show ?thesis
    unfolding Pipe_inv_def s' by simp
next
  case Exited
  with assms(2) show ?thesis by (simp add: Pipe_step_def)
qed

lemma Pipe_inv_G2:
  assumes "Pipe_inv dst2src src2dst s" and "Pipe_step dst2src src2dst G2 s = Some s'"
  shows "Pipe_inv dst2src src2dst s'"
proof (cases "g2 s")
  case AtCopy
  with assms(2) obtain n e where c: "chunkedCopy src2dst = Some (n, e)"
    and s': "s' = s\<lparr>sent := n, g2 := AtOnce\<rparr>"
    by (auto simp: Pipe_step_def split: option.splits)
  from assms(1) AtCopy show ?thesis
    unfolding Pipe_inv_def s' by (simp add: c)
next
  case AtOnce
  with assms(2) have s': "s' = (o_Do_close s)\<lparr>g2 := AtDone\<rparr>"
    by (simp add: Pipe_step_def)
  from assms(1) AtOnce show ?thesis
    unfolding Pipe_inv_def s' o_Do_close_def by (cases "o_done s") simp_all
next
  case AtDone
  with assms(2) have s': "s' = s\<lparr>wg := wg s - 1, g2 := Exited\<rparr>"
    by (simp add: Pipe_step_def)
  from assms(1) AtDone show ?thesis
    unfolding Pipe_inv_def s' by simp
next
  case Exited
  with assms(2) show ?thesis by (simp add: Pipe_step_def)
qed

lemma Pipe_inv_Main:
  assumes "Pipe_inv dst2src src2dst s" and "Pipe_step dst2src src2dst Main s = Some s'"
  shows "Pipe_inv dst2src src2dst s'"
proof -
  from assms(2) have w: "wg s = 0" and s': "s' = s\<lparr>ret := Some (sent s, received s)\<rparr>"
    by (auto simp: Pipe_step_def split: if_splits)
  from w assms(1) have "g1 s = Exited" "g2 s = Exited"
    by (cases "g1 s"; cases "g2 s"; simp add: Pipe_inv_def)+
  with assms(1) s' show ?thesis by (simp add: Pipe_inv_def)
qed

lemma Pipe_inv_step:
  assumes "Pipe_inv dst2src src2dst s" and "Pipe_step dst2src src2dst t s = Some s'"
  shows "Pipe_inv dst2src src2dst s'"
  using assms by (cases t) (auto intro: Pipe_inv_G1 Pipe_inv_G2 Pipe_inv_Main)

lemma Pipe_inv_run:
  "Pipe_inv dst2src src2dst s \<Longrightarrow> Pipe_run dst2src src2dst ts s = Some s' \<Longrightarrow>
   Pipe_inv dst2src src2dst s'"
proof (induction ts arbitrary: s)
  case Nil
  then show ?case by simp
next
  case (Cons t ts)
  then show ?case
    by (auto split: option.splits dest: Pipe_inv_step)
qed

lemma chunkedCopy_three_then_EOF: "chunkedCopy three_then_EOF = Some (3, None)"
  by (simp add: chunkedCopy_def three_then_EOF_def)

lemma chunkedCopy_three_then_reset:
  "chunkedCopy three_then_reset = Some (3, Some (Err ''connection reset by peer''))"
  by (simp add: chunkedCopy_def three_then_reset_def)

lemma chunkedCopy_five_then_EOF: "chunkedCopy five_then_EOF = Some (5, None)"
  by (simp add: chunkedCopy_def five_then_EOF_def)

lemma chunkedCopy_five_then_short: "chunkedCopy five_then_short = Some (5, Some ErrShortWrite)"
  by (simp add: chunkedCopy_def five_then_short_def)



lemma Pipe_step_counts_only:
  assumes "chunkedCopy a = Some (n1, e1)" and "chunkedCopy a' = Some (n1, e1')"
      and "chunkedCopy b = Some (n2, e2)" and "chunkedCopy b' = Some (n2, e2')"
  shows "Pipe_step a' b' t s = Pipe_step a b t s"
  by (cases t; cases "g1 s"; cases "g2 s") (simp_all add: Pipe_step_def assms)

lemma Pipe_run_counts_only:
  assumes "chunkedCopy a = Some (n1, e1)" and "chunkedCopy a' = Some (n1, e1')"
      and "chunkedCopy b = Some (n2, e2)" and "chunkedCopy b' = Some (n2, e2')"
  shows "Pipe_run a' b' ts s = Pipe_run a b ts s"
  by (induction ts arbitrary: s)
    (simp_all add: Pipe_step_counts_only [OF assms] cong: option.case_cong)

text \<open>While \<open>Pipe\<close> has not returned and both copies do return, some thread can move.\<close>

lemma Pipe_not_stuck:
  assumes "Pipe_inv dst2src src2dst s" and "ret s = None"
    and "chunkedCopy dst2src \<noteq> None" and "chunkedCopy src2dst \<noteq> None"
  shows "\<exists>t. Pipe_step dst2src src2dst t s \<noteq> None"
proof (cases "g1 s = Exited")
  case False
  with assms have "Pipe_step dst2src src2dst G1 s \<noteq> None"
    by (cases "g1 s") (auto simp: Pipe_step_def)
  then show ?thesis ..
next
  case True
  note g1 = this
  show ?thesis
  proof (cases "g2 s = Exited")
    case False
    with assms have "Pipe_step dst2src src2dst G2 s \<noteq> None"
      by (cases "g2 s") (auto simp: Pipe_step_def)
    then show ?thesis ..
  next
    case True
    with g1 assms have "Pipe_step dst2src src2dst Main s \<noteq> None"
      by (simp add: Pipe_step_def Pipe_inv_def)
    then show ?thesis ..
  qed
qed

text \<open>
  Claim C9. \<open>Pipe\<close> drops the error of each copy. Let the two copies return the counts
  \<open>n_sent\<close> and \<open>n_received\<close>, with whatever errors (none after a clean end of file, or a
  transport error):
  \<^item> under every schedule \<open>Pipe\<close> goes through the same states, and so returns the same
    pair, as with any other readers and writers that give the same two counts: the
    caller cannot tell a clean end of file from an error;
  \<^item> once both copies have returned, \<open>Pipe\<close> returns \<open>(n_sent, n_received)\<close>;
  \<^item> there is no state before the return in which every thread is stuck.
\<close>

theorem Pipe_discards_errors:
  assumes "chunkedCopy src2dst = Some (n_sent, e_sent)"
      and "chunkedCopy dst2src = Some (n_received, e_received)"
      and "chunkedCopy src2dst' = Some (n_sent, e_sent')"
      and "chunkedCopy dst2src' = Some (n_received, e_received')"
  shows "Pipe src2dst' dst2src' schedule = Pipe src2dst dst2src schedule \<and>
         map_option ret (Pipe src2dst dst2src [G1, G1, G1, G2, G2, G2, Main]) =
           Some (Some (n_sent, n_received)) \<and>
         (\<forall>s. Pipe src2dst dst2src schedule = Some s \<and> ret s = None \<longrightarrow>
              (\<exists>t. Pipe_step dst2src src2dst t s \<noteq> None))"
proof (intro conjI allI impI)
  show "Pipe src2dst' dst2src' schedule = Pipe src2dst dst2src schedule"
    unfolding Pipe_def by (rule Pipe_run_counts_only [OF assms(2) assms(4) assms(1) assms(3)])
  show "map_option ret (Pipe src2dst dst2src [G1, G1, G1, G2, G2, G2, Main]) =
           Some (Some (n_sent, n_received))"
    by (simp add: Pipe_def Pipe_step_def Pipe_init_def o_Do_close_def assms)
next
  fix s assume a: "Pipe src2dst dst2src schedule = Some s \<and> ret s = None"
  then have "Pipe_inv dst2src src2dst s"
    unfolding Pipe_def using Pipe_inv_run [OF Pipe_inv_init] by blast
  with a assms show "\<exists>t. Pipe_step dst2src src2dst t s \<noteq> None"
    by (intro Pipe_not_stuck) simp_all
qed

text \<open>A copy of three bytes that ends at end of file and one that ends on a connection
  reset, a copy of five bytes that ends at end of file and one that ends on a short
  write: \<open>Pipe\<close> behaves the same with either pair and returns \<open>(3, 5)\<close>; and when both
  copies have returned and \<open>Pipe\<close> has not, a thread can move.\<close>

theorem Pipe_discards_errors_witness:
  "chunkedCopy three_then_EOF = Some (3, None) \<and>
   chunkedCopy three_then_reset = Some (3, Some (Err ''connection reset by peer'')) \<and>
   chunkedCopy five_then_EOF = Some (5, None) \<and>
   chunkedCopy five_then_short = Some (5, Some ErrShortWrite) \<and>
   Pipe three_then_reset five_then_short [G1, G2, G1, G2, G1, G2, Main] =
     Pipe three_then_EOF five_then_EOF [G1, G2, G1, G2, G1, G2, Main] \<and>
   map_option ret (Pipe three_then_EOF five_then_EOF [G1, G1, G1, G2, G2, G2, Main]) =
     Some (Some (3, 5)) \<and>
   map_option ret (Pipe three_then_reset five_then_short [G1, G1, G1, G2, G2, G2, Main]) =
     Some (Some (3, 5)) \<and>
   Pipe three_then_reset five_then_short [G1, G2] = Some (Pipe_copied 3 5) \<and>
   ret (Pipe_copied 3 5) = None \<and>
   (\<exists>t. Pipe_step five_then_short three_then_reset t (Pipe_copied 3 5) \<noteq> None)"
proof -
  have part: "Pipe three_then_reset five_then_short [G1, G2] = Some (Pipe_copied 3 5)"
    by (simp add: Pipe_def Pipe_step_def Pipe_init_def Pipe_copied_def
        chunkedCopy_three_then_reset chunkedCopy_five_then_short)
  have none: "ret (Pipe_copied 3 5) = None"
    by (simp add: Pipe_copied_def)
  from Pipe_discards_errors [OF chunkedCopy_three_then_EOF chunkedCopy_five_then_EOF
      chunkedCopy_three_then_reset chunkedCopy_five_then_short,
      of "[G1, G2, G1, G2, G1, G2, Main]"]
  have same: "Pipe three_then_reset five_then_short [G1, G2, G1, G2, G1, G2, Main] =
     Pipe three_then_EOF five_then_EOF [G1, G2, G1, G2, G1, G2, Main]"
    and clean: "map_option ret (Pipe three_then_EOF five_then_EOF [G1, G1, G1, G2, G2, G2, Main]) =
     Some (Some (3, 5))"
    by simp_all
  from Pipe_discards_errors [OF chunkedCopy_three_then_reset chunkedCopy_five_then_short
      chunkedCopy_three_then_EOF chunkedCopy_five_then_EOF, of "[G1, G2]"]
  have broken: "map_option ret (Pipe three_then_reset five_then_short [G1, G1, G1, G2, G2, G2, Main]) =
     Some (Some (3, 5))"
    and moves: "\<exists>t. Pipe_step five_then_short three_then_reset t (Pipe_copied 3 5) \<noteq> None"
    using part none by simp_all
  from same clean broken moves part none show ?thesis
    by (simp add: chunkedCopy_three_then_EOF chunkedCopy_five_then_EOF
        chunkedCopy_three_then_reset chunkedCopy_five_then_short)
qed

section \<open>The proxy's connection pool (C2)\<close>

lemma Proxy_run_append:
  "Proxy_run (es @ fs) p =
     (case Proxy_run es p of None \<Rightarrow> None | Some p' \<Rightarrow> Proxy_run fs p')"
  by (induction es arbitrary: p) (auto split: option.splits)

text \<open>With the channel empty, a connection is accepted and a worker takes its value out
  of the channel again: one more \<open>pipeRemote\<close> runs and the channel is empty as
  before.\<close>

lemma Accept_then_Worker:
  assumes "connPool p = 0"
  shows "\<exists>p'. Proxy_run [Accept, Worker] p = Some p' \<and> connPool p' = 0 \<and>
              inflight p' = inflight p + 1 \<and> rejected p' = rejected p \<and>
              maxConns p' = maxConns p"
  using assms by (simp add: Proxy_step_def connPool_cap_def)

lemma Accept_Worker_rounds:
  assumes "connPool p = 0"
  shows "\<exists>p'. Proxy_run (concat (replicate n [Accept, Worker])) p = Some p' \<and>
              connPool p' = 0 \<and> inflight p' = inflight p + n \<and>
              rejected p' = rejected p \<and> maxConns p' = maxConns p"
  using assms
proof (induction n arbitrary: p)
  case 0
  then show ?case by simp
next
  case (Suc n)
  from Accept_then_Worker [OF Suc.prems] obtain p1 where
    p1: "Proxy_run [Accept, Worker] p = Some p1" "connPool p1 = 0"
        "inflight p1 = inflight p + 1" "rejected p1 = rejected p" "maxConns p1 = maxConns p"
    by blast
  from Suc.IH [OF p1(2)] obtain p2 where
    p2: "Proxy_run (concat (replicate n [Accept, Worker])) p1 = Some p2" "connPool p2 = 0"
        "inflight p2 = inflight p1 + n" "rejected p2 = rejected p1" "maxConns p2 = maxConns p1"
    by blast
  have "concat (replicate (Suc n) [Accept, Worker]) =
          [Accept, Worker] @ concat (replicate n [Accept, Worker])"
    by simp
  then have "Proxy_run (concat (replicate (Suc n) [Accept, Worker])) p = Some p2"
    using p1(1) p2(1) by (simp only: Proxy_run_append option.case)
  with p1 p2 show ?case by simp
qed

text \<open>Without the workers the send in \<open>runTCP\<close> and the receive at the end of
  \<open>pipeRemote\<close> keep the connections in flight equal to the values in the channel, hence
  at most its capacity.\<close>

lemma step_without_worker:
  assumes "e \<noteq> Worker" and "inflight p = connPool p" and "connPool p \<le> connPool_cap"
    and "Proxy_step e p = Some p1"
  shows "inflight p1 = connPool p1 \<and> connPool p1 \<le> connPool_cap"
  using assms by (cases e) (auto simp: Proxy_step_def split: if_splits)

lemma cap_without_workers:
  assumes "Worker \<notin> set es" and "inflight p = connPool p" and "connPool p \<le> connPool_cap"
    and "Proxy_run es p = Some p'"
  shows "inflight p' = connPool p' \<and> inflight p' \<le> connPool_cap"
  using assms
proof (induction es arbitrary: p)
  case Nil
  then show ?case by simp
next
  case (Cons e es)
  from Cons.prems(4) obtain p1 where
    st: "Proxy_step e p = Some p1" and rn: "Proxy_run es p1 = Some p'"
    by (auto split: option.splits)
  from Cons.prems(1) have ne: "e \<noteq> Worker" and nes: "Worker \<notin> set es" by auto
  from step_without_worker [OF ne Cons.prems(2) Cons.prems(3) st]
  have "inflight p1 = connPool p1" "connPool p1 \<le> connPool_cap" by simp_all
  from Cons.IH [OF nes this rn] show ?case .
qed

text \<open>
  Claim C2 does not hold of the code. The claim: the connections in flight never
  exceed the cap of 100, and an accept that finds 100 in flight closes the connection.
  The code: the ten \<open>connectionWorker\<close> goroutines receive from \<open>connPool\<close> whatever
  \<open>runTCP\<close> sends into it, so the channel does not count the connections in flight.
  On a new proxy, 101 connections accepted one after the other, a worker taking each
  value, and no pipe finished yet: 101 connections are in flight and none was
  rejected.
\<close>

theorem workers_drain_connPool:
  "map_option inflight (Proxy_run (concat (replicate 101 [Accept, Worker])) NewProxy) =
     Some 101 \<and>
   map_option rejected (Proxy_run (concat (replicate 101 [Accept, Worker])) NewProxy) =
     Some 0 \<and>
   maxConns NewProxy = 100 \<and> connPool_cap = 100"
proof -
  have "connPool NewProxy = 0" by (simp add: NewProxy_def)
  from Accept_Worker_rounds [OF this, of 101] show ?thesis
    by (auto simp: NewProxy_def connPool_cap_def)
qed

section \<open>The tunnel's active connection (C3, C10)\<close>

text \<open>What holds of claim C3: a second bind panics; the bound connection is what \<open>getSSH\<close>
  returns while \<open>BindSSH\<close> runs, also after the context of \<open>BindSSH\<close> is done; and in
  the state that \<open>BindSSH\<close> leaves on return there is no connection, the latch is armed
  and \<open>getSSH\<close> blocks.\<close>

lemma BindSSH_bind_double: "activeConn t \<noteq> None \<Longrightarrow> BindSSH_bind c t = None"
  by (simp add: BindSSH_bind_def)

lemma getSSH_while_bound:
  "BindSSH_bind c t = Some t' \<Longrightarrow>
   getSSH False t' = Returns (Some c) \<and> getSSH False (BindSSH_ctx_done t') = Returns (Some c)"
  by (auto simp: BindSSH_bind_def getSSH_def BindSSH_ctx_done_def split: if_splits)

lemma getSSH_after_unbind:
  "activeConn (BindSSH_unbind t) = None \<and> activatingConn (BindSSH_unbind t) > 0 \<and>
   getSSH False (BindSSH_unbind t) = Blocks"
  by (simp add: BindSSH_unbind_def getSSH_def waitGroup_Add_def waitGroup_Wait_blocks_def
      Let_def)

text \<open>After the return, and whatever the goroutine of \<open>BindSSH\<close> does then, \<open>getSSH\<close>
  never returns the old connection.\<close>

lemma getSSH_never_old:
  "getSSH isDone (BindSSH_unbind t) \<noteq> Returns (Some c) \<and>
   getSSH isDone (BindSSH_ctx_done (BindSSH_unbind t)) \<noteq> Returns (Some c)"
  by (simp add: BindSSH_unbind_def BindSSH_ctx_done_def getSSH_def Let_def)

text \<open>
  Claim C3 does not hold of the code. The claim: after \<open>BindSSH\<close> has returned, a
  \<open>getSSH\<close> caller whose context is live blocks until a new session is bound. The code:
  \<open>connectionOnce\<close> cancels the context it gave to \<open>BindSSH\<close> as soon as \<open>BindSSH\<close> returns
  (\<open>defer cancel()\<close>), the goroutine of \<open>BindSSH\<close> then calls \<open>DoneAll\<close> on the latch
  that \<open>BindSSH\<close> has just re-armed, and from then on \<open>getSSH\<close> returns nil at once.
  On a new tunnel: connection 7 is bound, the session ends and \<open>BindSSH\<close> returns (here
  \<open>getSSH\<close> still blocks), the context is cancelled, and \<open>getSSH\<close> with a live context
  returns nil.
\<close>

theorem getSSH_after_unbind_and_cancel:
  "BindSSH_bind 7 New = Some \<lparr>activatingConn = 0, activeConn = Some 7\<rparr> \<and>
   BindSSH_unbind \<lparr>activatingConn = 0, activeConn = Some 7\<rparr> =
     \<lparr>activatingConn = 1, activeConn = None\<rparr> \<and>
   getSSH False \<lparr>activatingConn = 1, activeConn = None\<rparr> = Blocks \<and>
   BindSSH_ctx_done \<lparr>activatingConn = 1, activeConn = None\<rparr> =
     \<lparr>activatingConn = 0, activeConn = None\<rparr> \<and>
   getSSH False \<lparr>activatingConn = 0, activeConn = None\<rparr> = Returns None"
  by (simp add: BindSSH_bind_def New_def BindSSH_unbind_def BindSSH_ctx_done_def getSSH_def
      waitGroup_Add_def waitGroup_Done_def waitGroup_DoneAll_def waitGroup_Wait_blocks_def
      Let_def)

text \<open>
  Claim C10. A \<open>getSSH\<close> call whose context is done at entry returns nil without
  waiting, whatever the tunnel holds, and so also when a connection is stored in
  \<open>activeConn\<close>: the check of the context comes before the look at \<open>activeConn\<close>.
\<close>

theorem getSSH_cancelled_returns_nil:
  "getSSH True t = Returns None \<and> getSSH True (t\<lparr>activeConn := Some c\<rparr>) = Returns None"
  by (simp add: getSSH_def)

section \<open>The client's connection loop (C6, C7)\<close>

lemma sint_add_exact:
  fixes a b :: "64 word"
  assumes "- (2 ^ 63) \<le> sint a + sint b" and "sint a + sint b < 2 ^ 63"
  shows "sint (a + b) = sint a + sint b"
  using assms by (simp add: sint_word_add signed_take_bit_int_eq_self)

text \<open>
  Claim C6, as amended. In every pass of the loop that retries:
  \<^item> the sleep is at most ten minutes;
  \<^item> it is the sum of the base and the adaptive term (in \<open>int64\<close> arithmetic), replaced
    by ten minutes where the sum is larger; where the sum does not overflow, that is
    the minimum of the sum and ten minutes;
  \<^item> when the last success lies more than five minutes back, the adaptive term is set
    to five seconds, and the sleep is the base plus five seconds, capped at ten
    minutes. The base still counts in full.
\<close>

theorem finalBackoff_is_capped_sum:
  assumes "backoff_calculation baseDuration now v = (finalBackoff, v')"
  shows "sint finalBackoff \<le> sint (10 * Minute) \<and>
         finalBackoff =
           (if sint (baseDuration + adaptiveBackoff v') > sint (10 * Minute) then 10 * Minute
            else baseDuration + adaptiveBackoff v') \<and>
         (- (2 ^ 63) \<le> sint baseDuration + sint (adaptiveBackoff v') \<and>
          sint baseDuration + sint (adaptiveBackoff v') < 2 ^ 63 \<longrightarrow>
            sint finalBackoff =
              min (sint baseDuration + sint (adaptiveBackoff v')) (sint (10 * Minute))) \<and>
         (probe_due now v \<longrightarrow>
            adaptiveBackoff v' = 5 * Second \<and>
            finalBackoff =
              (if sint (baseDuration + 5 * Second) > sint (10 * Minute) then 10 * Minute
               else baseDuration + 5 * Second))"
proof -
  let ?a = "adaptiveBackoff v'"
  from assms have fin: "finalBackoff =
      (if sint (baseDuration + ?a) > sint (10 * Minute) then 10 * Minute else baseDuration + ?a)"
    by (auto simp: backoff_calculation_def Let_def)
  have le: "sint finalBackoff \<le> sint (10 * Minute)"
    unfolding fin by simp
  have exact: "sint finalBackoff = min (sint baseDuration + sint ?a) (sint (10 * Minute))"
    if "- (2 ^ 63) \<le> sint baseDuration + sint ?a \<and> sint baseDuration + sint ?a < 2 ^ 63"
  proof -
    from that have "sint (baseDuration + ?a) = sint baseDuration + sint ?a"
      by (simp add: sint_add_exact)
    then show ?thesis unfolding fin by (simp add: min_def)
  qed
  have probe: "?a = 5 * Second" if "probe_due now v"
    using that assms
    by (auto simp: backoff_calculation_def probe_due_def Let_def split: option.splits)
  show ?thesis
    using fin le exact probe by metis
qed

text \<open>Thirteen failures after a success seven minutes back, with a base of five minutes:
  the probe is due and the sleep is five minutes and five seconds.\<close>

theorem finalBackoff_is_capped_sum_witness:
  "backoff_calculation (5 * Minute) 420000000000 (probing\<lparr>consecutiveFailures := 13\<rparr>) =
     (305000000000,
      probing\<lparr>b_attempt := 13, consecutiveFailures := 13, adaptiveBackoff := 5000000000\<rparr>) \<and>
   probe_due 420000000000 (probing\<lparr>consecutiveFailures := 13\<rparr>) \<and>
   sint (305000000000 :: Duration) \<le> sint (10 * Minute) \<and>
   sint (305000000000 :: Duration) = min (300000000000 + 5000000000) 600000000000"
proof -
  have run: "backoff_calculation (5 * Minute) 420000000000 (probing\<lparr>consecutiveFailures := 13\<rparr>) =
     (305000000000,
      probing\<lparr>b_attempt := 13, consecutiveFailures := 13, adaptiveBackoff := 5000000000\<rparr>)"
    by (simp add: backoff_calculation_def probing_def Since_def go_div_def Minute_def
        Second_def Let_def)
  have due: "probe_due 420000000000 (probing\<lparr>consecutiveFailures := 13\<rparr>)"
    by (simp add: probe_due_def probing_def Since_def Minute_def Second_def)
  from finalBackoff_is_capped_sum [OF run] run due show ?thesis
    by (simp add: Minute_def Second_def)
qed

text \<open>Claim C6 as stated fails in its second half: with the last success more than five
  minutes back the sleep is not capped at the probe value of five seconds, and it
  grows with the base. The thirteenth failure after a success seven minutes back is
  followed by a sleep of 305 seconds when the base is five minutes, and of 65 seconds
  when the base is one minute.\<close>

theorem probe_sleep_grows_with_base_counterexample:
  "probe_due 420000000000 (after_connectionOnce False 420000000000 probing) \<and>
   fst (connectionLoop_body False 420000000000 (- 1) (5 * Minute) 420000000000 probing) =
     RetryIn 305000000000 \<and>
   fst (connectionLoop_body False 420000000000 (- 1) (1 * Minute) 420000000000 probing) =
     RetryIn 65000000000 \<and>
   sint (5 * Second) < sint (65000000000 :: Duration) \<and>
   sint (65000000000 :: Duration) < sint (305000000000 :: Duration)"
  by (simp add: connectionLoop_body_def after_connectionOnce_def give_up_def
      backoff_calculation_def probe_due_def probing_def Since_def go_div_def Minute_def
      Second_def Let_def)

lemma after_dial_connected:
  "connected (after_dial a d) =
     (dialErr a = None \<and> sshErr a = None \<and> sendErr a = None \<and> configerr a = [] \<and>
      sint (sinceT0 a) > sint (5 * Second))"
  by (auto simp: after_dial_def failed_def split: option.splits)

lemma connectionOnce_connected:
  "connected (connectionOnce a) =
     (\<not> ctxDone a \<and> (\<forall>e. setProxy a \<noteq> Some (Inl e)) \<and>
      dialErr a = None \<and> sshErr a = None \<and> sendErr a = None \<and> configerr a = [] \<and>
      sint (sinceT0 a) > sint (5 * Second))"
  by (auto simp: connectionOnce_def after_dial_connected failed_def Let_def
      split: option.splits sum.splits)

text \<open>
  Claim C7. An attempt is connected exactly when it got as far as \<open>BindSSH\<close> (the
  context live, the proxy set, the dial, the handshake and the \<open>config\<close> request all
  without error and with an empty reply) and \<open>BindSSH\<close> returned more than five seconds
  after \<open>t0\<close>. After a connected attempt the loop has the attempt counter of the
  backoff, the count of consecutive failures and the adaptive term at zero; after any
  other attempt, one that lasted five seconds or less included, it has added one to the
  count of consecutive failures and changed nothing else.
\<close>

theorem connected_iff_stable_and_resets_backoff:
  "(connected (connectionOnce a) \<longleftrightarrow>
      \<not> ctxDone a \<and> (\<forall>e. setProxy a \<noteq> Some (Inl e)) \<and>
      dialErr a = None \<and> sshErr a = None \<and> sendErr a = None \<and> configerr a = [] \<and>
      sint (sinceT0 a) > sint (5 * Second)) \<and>
   (connected (connectionOnce a) \<longrightarrow>
      b_attempt (after_connectionOnce (connected (connectionOnce a)) now v) = 0 \<and>
      consecutiveFailures (after_connectionOnce (connected (connectionOnce a)) now v) = 0 \<and>
      adaptiveBackoff (after_connectionOnce (connected (connectionOnce a)) now v) = 0) \<and>
   (\<not> connected (connectionOnce a) \<longrightarrow>
      after_connectionOnce (connected (connectionOnce a)) now v =
        v\<lparr>consecutiveFailures := consecutiveFailures v + 1\<rparr>)"
  by (simp add: connectionOnce_connected after_connectionOnce_def)

text \<open>A session that ends exactly five seconds after \<open>t0\<close> is not connected and counts as
  a failure; one that ends a nanosecond later is connected and resets the backoff.\<close>

theorem connected_iff_stable_and_resets_backoff_witness:
  "\<not> connected (connectionOnce short_session) \<and>
   connected (connectionOnce long_session) \<and>
   after_connectionOnce (connected (connectionOnce long_session)) 99 stale_vars =
     \<lparr>b_attempt = 0, lastSuccess = Some 99, consecutiveFailures = 0, adaptiveBackoff = 0\<rparr> \<and>
   after_connectionOnce (connected (connectionOnce short_session)) 99 stale_vars =
     \<lparr>b_attempt = 4, lastSuccess = None, consecutiveFailures = 5,
      adaptiveBackoff = 7 * Second\<rparr>"
  using connected_iff_stable_and_resets_backoff [of long_session 99 stale_vars]
    connected_iff_stable_and_resets_backoff [of short_session 99 stale_vars]
  by (simp add: short_session_def long_session_def stale_vars_def Second_def
      after_connectionOnce_def)

section \<open>The subprotocol of the dial (C8)\<close>

lemma after_dial_dialed: "dialed (after_dial a d) = Some d"
  by (simp add: after_dial_def failed_def split: option.splits)

text \<open>
  Claim C8, as amended. Every dial of the client presents one subprotocol, the masked
  one, \<open>chat\<close> (\<open>MaskedWebSocketProtocol\<close>); the protocol version \<open>chisel-v3\<close>
  (\<open>ProtocolVersion\<close>) is not among the subprotocols of the request. This holds for a
  direct dial and for one through a proxy, \<open>setProxy\<close> leaving the subprotocols alone.
\<close>

theorem Subprotocols_is_masked:
  assumes "dialed (connectionOnce a) = Some d" and "keeps_Subprotocols a"
  shows "Subprotocols d = [MaskedWebSocketProtocol] \<and> Subprotocols d = [''chat''] \<and>
         ProtocolVersion \<notin> set (Subprotocols d)"
proof -
  from assms have "Subprotocols d = [MaskedWebSocketProtocol]"
    by (auto simp: connectionOnce_def after_dial_dialed failed_def keeps_Subprotocols_def
        Let_def split: if_splits option.splits sum.splits)
  then show ?thesis
    by (simp add: MaskedWebSocketProtocol_def ProtocolVersion_def)
qed

theorem Subprotocols_is_masked_witness:
  "dialed (connectionOnce long_session) =
     Some \<lparr>HandshakeTimeout = 45 * Second, Subprotocols = [''chat''],
           ReadBufferSize = 0, WriteBufferSize = 0\<rparr> \<and>
   keeps_Subprotocols long_session"
  using Subprotocols_is_masked [of long_session
      "\<lparr>HandshakeTimeout = 45 * Second, Subprotocols = [''chat''],
        ReadBufferSize = 0, WriteBufferSize = 0\<rparr>"]
  by (simp add: connectionOnce_def after_dial_def long_session_def short_session_def
      MaskedWebSocketProtocol_def keeps_Subprotocols_def Let_def)

text \<open>Claim C8 as stated fails: the subprotocol of a direct dial is \<open>chat\<close>, not the
  protocol version \<open>chisel-v3\<close>.\<close>

theorem Subprotocols_not_ProtocolVersion_counterexample:
  "map_option Subprotocols (dialed (connectionOnce long_session)) = Some [''chat''] \<and>
   ProtocolVersion = ''chisel-v3'' \<and>
   map_option Subprotocols (dialed (connectionOnce long_session)) \<noteq> Some [ProtocolVersion]"
  by (simp add: connectionOnce_def after_dial_def long_session_def short_session_def
      MaskedWebSocketProtocol_def ProtocolVersion_def Let_def)

end
